theory Spec2Isabelle
  imports Complex_Main
begin

section \<open>Constants of the simulation\<close>

text \<open>
  The constants at the head of \<^verbatim>\<open>src/hooks/useTrafficSimulation.ts\<close>.
  \<^verbatim>\<open>YELLOW_LIGHT_DURATION = 0.5 * TICKS_PER_SECOND\<close> is the number 5 exactly, so the
  timers, which only ever hold 20, 5, 999 and what decrementing them gives, are integers.
\<close>

definition GRID_SIZE :: int where
  "GRID_SIZE = 3"

definition LANE_WIDTH :: int where
  "LANE_WIDTH = 50"

definition INTERSECTION_SIZE :: int where
  "INTERSECTION_SIZE = 100"

definition CELL_SIZE :: int where
  "CELL_SIZE = LANE_WIDTH * 2 + INTERSECTION_SIZE"

definition TICKS_PER_SECOND :: int where
  "TICKS_PER_SECOND = 10"

definition INITIAL_LIGHT_DURATION :: int where
  "INITIAL_LIGHT_DURATION = 2 * TICKS_PER_SECOND"

definition YELLOW_LIGHT_DURATION :: int where
  "YELLOW_LIGHT_DURATION = 5"

definition JAM_VEHICLE_THRESHOLD :: nat where
  "JAM_VEHICLE_THRESHOLD = 3"

definition JAM_STOPPED_RATIO_THRESHOLD :: real where
  "JAM_STOPPED_RATIO_THRESHOLD = 66 / 100"

definition COLLISION_FLASH_DURATION_TICKS :: int where
  "COLLISION_FLASH_DURATION_TICKS = 1 * TICKS_PER_SECOND"

section \<open>Data model\<close>

text \<open>
  Modelled from the spec: the type declarations of the module \<^verbatim>\<open>../types\<close>, which is
  not among the sources. The spec's data model gives the variants (light states Red,
  Yellow, Green; headings N, S, E, W; vehicle types Car, Bike, Bus; weather Clear, Rain,
  Fog); the members and the fields below are the ones the hook reads and writes.
\<close>

datatype LightState = RED | YELLOW | GREEN

datatype Direction = N | S | E | W

record Light =
  state :: LightState
  timer :: int

text \<open>
  An intersection holds exactly four lights (the TypeScript type is a 4-tuple), in the
  order N, S, E, W: entries 0 and 1 face the NS axis, entries 2 and 3 the EW axis.
  The field \<^verbatim>\<open>id\<close> is called \<open>iid\<close> here.
\<close>

record Intersection =
  iid :: nat
  lights :: "Light \<times> Light \<times> Light \<times> Light"
  manualOverride :: bool
  emergencyOverrideFor :: "Direction option"

section \<open>The traffic lights\<close>

text \<open>The initial state of \<^verbatim>\<open>intersections\<close>: nine intersections, the even ones
  NS-green, the odd ones EW-green.\<close>

definition initialIntersection :: "nat \<Rightarrow> Intersection" where
  "initialIntersection i =
     \<lparr> iid = i,
       lights =
         (\<lparr> state = (if i mod 2 = 0 then GREEN else RED), timer = INITIAL_LIGHT_DURATION \<rparr>,
          \<lparr> state = (if i mod 2 = 0 then GREEN else RED), timer = INITIAL_LIGHT_DURATION \<rparr>,
          \<lparr> state = (if i mod 2 = 0 then RED else GREEN), timer = INITIAL_LIGHT_DURATION \<rparr>,
          \<lparr> state = (if i mod 2 = 0 then RED else GREEN), timer = INITIAL_LIGHT_DURATION \<rparr>),
       manualOverride = False,
       emergencyOverrideFor = None \<rparr>"

definition initialIntersections :: "Intersection list" where
  "initialIntersections = map initialIntersection [0 ..< nat (GRID_SIZE * GRID_SIZE)]"

text \<open>
  The emergency branch of \<^verbatim>\<open>updateLights\<close>: the four states are overwritten, the
  timers are left as they are.
\<close>

definition emergencyLights ::
  "Direction \<Rightarrow> Light \<times> Light \<times> Light \<times> Light \<Rightarrow> Light \<times> Light \<times> Light \<times> Light" where
  "emergencyLights dir ls =
     (case ls of (l0, l1, l2, l3) \<Rightarrow>
        (l0\<lparr>state := (if dir = N \<or> dir = S then GREEN else RED)\<rparr>,
         l1\<lparr>state := (if dir = N \<or> dir = S then GREEN else RED)\<rparr>,
         l2\<lparr>state := (if dir = E \<or> dir = W then GREEN else RED)\<rparr>,
         l3\<lparr>state := (if dir = E \<or> dir = W then GREEN else RED)\<rparr>))"

text \<open>
  The automatic branch of \<^verbatim>\<open>updateLights\<close>, statement by statement: light 0's timer is
  decremented and copied to the other three; when it has reached zero the axis that is
  found green (by light 0 alone) turns yellow and only that axis's two timers are set to
  the yellow duration; otherwise, when light 0 is yellow and its timer equals
  \<^verbatim>\<open>INITIAL_LIGHT_DURATION - YELLOW_LIGHT_DURATION\<close>, the axes swap to green and red and
  all timers are set to the green duration.
\<close>

definition cycleLights :: "Light \<times> Light \<times> Light \<times> Light \<Rightarrow> Light \<times> Light \<times> Light \<times> Light" where
  "cycleLights ls =
     (case ls of (l0, l1, l2, l3) \<Rightarrow>
        let t = timer l0 - 1;
            needsSwitch = (t \<le> 0);
            l0 = l0\<lparr>timer := t\<rparr>;
            l1 = l1\<lparr>timer := t\<rparr>;
            l2 = l2\<lparr>timer := t\<rparr>;
            l3 = l3\<lparr>timer := t\<rparr>
        in
          if needsSwitch then
            (if state l0 = GREEN then
               (l0\<lparr>state := YELLOW, timer := YELLOW_LIGHT_DURATION\<rparr>,
                l1\<lparr>state := YELLOW, timer := YELLOW_LIGHT_DURATION\<rparr>, l2, l3)
             else
               (l0, l1,
                l2\<lparr>state := YELLOW, timer := YELLOW_LIGHT_DURATION\<rparr>,
                l3\<lparr>state := YELLOW, timer := YELLOW_LIGHT_DURATION\<rparr>))
          else if timer l0 = INITIAL_LIGHT_DURATION - YELLOW_LIGHT_DURATION \<and> state l0 = YELLOW then
            (if state l2 = RED then
               (l0\<lparr>state := RED, timer := INITIAL_LIGHT_DURATION\<rparr>,
                l1\<lparr>state := RED, timer := INITIAL_LIGHT_DURATION\<rparr>,
                l2\<lparr>state := GREEN, timer := INITIAL_LIGHT_DURATION\<rparr>,
                l3\<lparr>state := GREEN, timer := INITIAL_LIGHT_DURATION\<rparr>)
             else
               (l0\<lparr>state := GREEN, timer := INITIAL_LIGHT_DURATION\<rparr>,
                l1\<lparr>state := GREEN, timer := INITIAL_LIGHT_DURATION\<rparr>,
                l2\<lparr>state := RED, timer := INITIAL_LIGHT_DURATION\<rparr>,
                l3\<lparr>state := RED, timer := INITIAL_LIGHT_DURATION\<rparr>))
          else (l0, l1, l2, l3))"

text \<open>
  The body of the \<^verbatim>\<open>prev.map\<close> callback of \<^verbatim>\<open>updateLights\<close>. The manual-override
  test comes first and returns the intersection untouched; the emergency test is second.
  The source writes into the light objects of the previous state; the model returns the
  new state, and each state updater is applied once per tick.
\<close>

definition updateLight :: "Intersection \<Rightarrow> Intersection" where
  "updateLight intersection =
     (if manualOverride intersection then intersection
      else case emergencyOverrideFor intersection of
        Some dir \<Rightarrow> intersection\<lparr>lights := emergencyLights dir (lights intersection)\<rparr>
      | None \<Rightarrow> intersection\<lparr>lights := cycleLights (lights intersection)\<rparr>)"

definition updateLights :: "Intersection list \<Rightarrow> Intersection list" where
  "updateLights prev = map updateLight prev"

text \<open>The four light states of an intersection, and the states of its two axes.\<close>

definition lightStates :: "Intersection \<Rightarrow> LightState \<times> LightState \<times> LightState \<times> LightState" where
  "lightStates i = (case lights i of (l0, l1, l2, l3) \<Rightarrow> (state l0, state l1, state l2, state l3))"

definition lightTimers :: "Intersection \<Rightarrow> int \<times> int \<times> int \<times> int" where
  "lightTimers i = (case lights i of (l0, l1, l2, l3) \<Rightarrow> (timer l0, timer l1, timer l2, timer l3))"

definition axisNS :: "Intersection \<Rightarrow> LightState \<Rightarrow> bool" where
  "axisNS i s = (case lightStates i of (s0, s1, s2, s3) \<Rightarrow> s0 = s \<and> s1 = s)"

definition axisEW :: "Intersection \<Rightarrow> LightState \<Rightarrow> bool" where
  "axisEW i s = (case lightStates i of (s0, s1, s2, s3) \<Rightarrow> s2 = s \<and> s3 = s)"

section \<open>Vehicles\<close>

text \<open>Modelled from the spec: the enumerations \<^verbatim>\<open>VehicleType\<close> and \<^verbatim>\<open>WeatherCondition\<close> and
  the fields of \<^verbatim>\<open>Vehicle\<close>, declared in \<^verbatim>\<open>../types\<close>.\<close>

datatype VehicleType = CAR | BIKE | BUS

datatype WeatherCondition = Clear | Rain | Fog

text \<open>
  A vehicle. The coordinates and the speed are JavaScript numbers; they are modelled as
  real numbers, so the rounding of double arithmetic is not part of the model. The fields
  \<^verbatim>\<open>id\<close>, \<^verbatim>\<open>type\<close>, \<^verbatim>\<open>x\<close> and \<^verbatim>\<open>y\<close> are called \<open>vid\<close>, \<open>vtype\<close>, \<open>vx\<close> and \<open>vy\<close>.
  A grid cell \<^verbatim>\<open>{gridX, gridY}\<close> is a pair of integers. The optional fields are options.
\<close>

type_synonym cell = "int \<times> int"

record Vehicle =
  vid :: nat
  vtype :: VehicleType
  vx :: real
  vy :: real
  direction :: Direction
  speed :: real
  stopped :: bool
  waitTime :: int
  isEmergency :: bool
  destination :: "cell option"
  path :: "cell list option"
  collisionTimestamp :: "int option"

subsection \<open>Numeric helpers of JavaScript\<close>

text \<open>\<^verbatim>\<open>Math.hypot\<close> on two arguments.\<close>

definition hypot :: "real \<Rightarrow> real \<Rightarrow> real" where
  "hypot a b = sqrt (a\<^sup>2 + b\<^sup>2)"

text \<open>The remainder operator \<^verbatim>\<open>%\<close>: the quotient is truncated towards zero, so the result
  has the sign of the dividend.\<close>

definition trunc :: "real \<Rightarrow> int" where
  "trunc r = (if 0 \<le> r then \<lfloor>r\<rfloor> else \<lceil>r\<rceil>)"

definition jsRem :: "real \<Rightarrow> real \<Rightarrow> real" where
  "jsRem a b = a - b * of_int (trunc (a / b))"

text \<open>\<^verbatim>\<open>Array.prototype.findIndex\<close>: the index of the first element that satisfies the
  predicate, or -1.\<close>

fun findIndex :: "('a \<Rightarrow> bool) \<Rightarrow> 'a list \<Rightarrow> int" where
  "findIndex P [] = - 1"
| "findIndex P (a # as) =
     (if P a then 0 else (let k = findIndex P as in if k = - 1 then - 1 else k + 1))"

subsection \<open>The first pass of \<^verbatim>\<open>moveVehicles\<close>\<close>

definition getWeatherMultiplier :: "WeatherCondition \<Rightarrow> VehicleType \<Rightarrow> real" where
  "getWeatherMultiplier currentWeather vehicleType =
     (case currentWeather of
        Rain \<Rightarrow> (if vehicleType = BIKE then 5 / 10 else 7 / 10)
      | Fog \<Rightarrow> (if vehicleType = BIKE then 3 / 10 else 4 / 10)
      | Clear \<Rightarrow> 1)"

text \<open>
  Clearing an old collision flag. The test \<^verbatim>\<open>newVehicle.collisionTimestamp && ...\<close> is a
  truthiness test: an absent timestamp and the timestamp 0 both fail it.
\<close>

definition clearOldCollision :: "int \<Rightarrow> Vehicle \<Rightarrow> Vehicle" where
  "clearOldCollision tick v =
     (case collisionTimestamp v of
        None \<Rightarrow> v
      | Some ts \<Rightarrow>
          if ts \<noteq> 0 \<and> tick - ts > COLLISION_FLASH_DURATION_TICKS
          then v\<lparr>collisionTimestamp := None\<rparr> else v)"

text \<open>
  Emergency vehicle routing: close to the centre of its cell, an emergency vehicle with a
  path takes the heading towards the path node after its current cell. (The branch
  "reached destination" of the source is empty.)
\<close>

definition routeEmergency :: "int \<Rightarrow> int \<Rightarrow> Vehicle \<Rightarrow> Vehicle" where
  "routeEmergency gridX gridY v =
     (case path v of
        None \<Rightarrow> v
      | Some p \<Rightarrow>
          if isEmergency v \<and> length p > 0 then
            let intersectionCenterX = real_of_int (gridX * CELL_SIZE) + real_of_int INTERSECTION_SIZE / 2;
                intersectionCenterY = real_of_int (gridY * CELL_SIZE) + real_of_int INTERSECTION_SIZE / 2;
                distToCenter = hypot (vx v - intersectionCenterX) (vy v - intersectionCenterY)
            in
              if distToCenter < 15 then
                let currentPathNodeIndex = findIndex (\<lambda>c. c = (gridX, gridY)) p in
                if currentPathNodeIndex \<noteq> - 1 \<and> currentPathNodeIndex + 1 < int (length p) then
                  let nextNode = p ! nat (currentPathNodeIndex + 1);
                      dx = fst nextNode - gridX;
                      dy = snd nextNode - gridY
                  in
                    if dx > 0 then v\<lparr>direction := E\<rparr>
                    else if dx < 0 then v\<lparr>direction := W\<rparr>
                    else if dy > 0 then v\<lparr>direction := S\<rparr>
                    else if dy < 0 then v\<lparr>direction := N\<rparr>
                    else v
                else v
              else v
          else v)"

datatype Axis = AxisX | AxisY

definition isNearIntersection :: "Vehicle \<Rightarrow> real \<Rightarrow> Axis \<Rightarrow> bool" where
  "isNearIntersection newVehicle pos dir =
     (let posInCell = jsRem pos (real_of_int CELL_SIZE);
          lo = real_of_int (CELL_SIZE - INTERSECTION_SIZE - LANE_WIDTH);
          hi = real_of_int (INTERSECTION_SIZE + LANE_WIDTH)
      in case dir of
           AxisX \<Rightarrow>
             (direction newVehicle = E \<and> posInCell > lo - 10 \<and> posInCell < lo) \<or>
             (direction newVehicle = W \<and> posInCell < hi \<and> posInCell > hi - 10)
         | AxisY \<Rightarrow>
             (direction newVehicle = S \<and> posInCell > lo - 10 \<and> posInCell < lo) \<or>
             (direction newVehicle = N \<and> posInCell < hi \<and> posInCell > hi - 10))"

definition lightIndex :: "Direction \<Rightarrow> nat" where
  "lightIndex d = (case d of N \<Rightarrow> 0 | S \<Rightarrow> 1 | E \<Rightarrow> 2 | W \<Rightarrow> 3)"

definition lightAt :: "Light \<times> Light \<times> Light \<times> Light \<Rightarrow> nat \<Rightarrow> Light" where
  "lightAt ls k =
     (case ls of (l0, l1, l2, l3) \<Rightarrow>
        if k = 0 then l0 else if k = 1 then l1 else if k = 2 then l2 else l3)"

text \<open>The signal-based stop condition: inside the grid, in the approach zone of the cell's
  intersection, with a Red or Yellow light for the vehicle's heading.\<close>

definition signalStop :: "Intersection list \<Rightarrow> int \<Rightarrow> int \<Rightarrow> Vehicle \<Rightarrow> bool" where
  "signalStop intersections gridX gridY newVehicle =
     (if gridX \<ge> 0 \<and> gridX < GRID_SIZE \<and> gridY \<ge> 0 \<and> gridY < GRID_SIZE then
        if isNearIntersection newVehicle (vx newVehicle) AxisX
           \<or> isNearIntersection newVehicle (vy newVehicle) AxisY then
          let k = nat (gridY * GRID_SIZE + gridX) in
          if k < length intersections then
            let light = lightAt (lights (intersections ! k)) (lightIndex (direction newVehicle))
            in state light = RED \<or> state light = YELLOW
          else False
        else False
      else False)"

text \<open>The loop over \<^verbatim>\<open>prevVehicles\<close> that looks for a vehicle ahead within the safety
  distance; it leaves at the first one found.\<close>

definition aheadOf :: "Vehicle \<Rightarrow> Vehicle \<Rightarrow> bool" where
  "aheadOf newVehicle otherVehicle =
     (let dist = hypot (vx newVehicle - vx otherVehicle) (vy newVehicle - vy otherVehicle);
          safetyDistance = (if vtype newVehicle = BUS then 30 else 20)
      in dist < safetyDistance \<and>
         (case direction newVehicle of
            N \<Rightarrow> vy newVehicle > vy otherVehicle
          | S \<Rightarrow> vy newVehicle < vy otherVehicle
          | E \<Rightarrow> vx newVehicle < vx otherVehicle
          | W \<Rightarrow> vx newVehicle > vx otherVehicle))"

fun vehicleAhead :: "Vehicle \<Rightarrow> Vehicle list \<Rightarrow> bool" where
  "vehicleAhead newVehicle [] = False"
| "vehicleAhead newVehicle (otherVehicle # rest) =
     (if vid newVehicle = vid otherVehicle then vehicleAhead newVehicle rest
      else if aheadOf newVehicle otherVehicle then True
      else vehicleAhead newVehicle rest)"

text \<open>The value of the local variable \<^verbatim>\<open>stop\<close> after both tests.\<close>

definition computeStop :: "Intersection list \<Rightarrow> Vehicle list \<Rightarrow> int \<Rightarrow> int \<Rightarrow> Vehicle \<Rightarrow> bool" where
  "computeStop intersections prevVehicles gridX gridY newVehicle =
     (if signalStop intersections gridX gridY newVehicle then True
      else vehicleAhead newVehicle prevVehicles)"

definition advance :: "WeatherCondition \<Rightarrow> Vehicle \<Rightarrow> Vehicle" where
  "advance currentWeather newVehicle =
     (let weatherMultiplier = getWeatherMultiplier currentWeather (vtype newVehicle);
          effectiveSpeed = speed newVehicle * weatherMultiplier
      in case direction newVehicle of
           N \<Rightarrow> newVehicle\<lparr>vy := vy newVehicle - effectiveSpeed\<rparr>
         | S \<Rightarrow> newVehicle\<lparr>vy := vy newVehicle + effectiveSpeed\<rparr>
         | E \<Rightarrow> newVehicle\<lparr>vx := vx newVehicle + effectiveSpeed\<rparr>
         | W \<Rightarrow> newVehicle\<lparr>vx := vx newVehicle - effectiveSpeed\<rparr>)"

text \<open>The callback of the first pass, for one vehicle at simulation tick \<open>tick\<close>.\<close>

definition moveVehicle ::
  "int \<Rightarrow> WeatherCondition \<Rightarrow> Intersection list \<Rightarrow> Vehicle list \<Rightarrow> Vehicle \<Rightarrow> Vehicle" where
  "moveVehicle tick currentWeather intersections prevVehicles vehicle =
     (let cleared = clearOldCollision tick vehicle;
          gridX = \<lfloor>vx cleared / real_of_int CELL_SIZE\<rfloor>;
          gridY = \<lfloor>vy cleared / real_of_int CELL_SIZE\<rfloor>;
          routed = routeEmergency gridX gridY cleared;
          stop = computeStop intersections prevVehicles gridX gridY routed;
          newVehicle = routed\<lparr>stopped := (stop \<and> \<not> isEmergency routed)\<rparr>
      in if stopped newVehicle then newVehicle\<lparr>waitTime := waitTime newVehicle + 1\<rparr>
         else advance currentWeather newVehicle)"

subsection \<open>The second pass of \<^verbatim>\<open>moveVehicles\<close>: collisions\<close>

text \<open>
  The nested loops \<^verbatim>\<open>for i ... for j = i + 1 ...\<close> visit the index pairs in this order.
\<close>

definition scanPairs :: "nat \<Rightarrow> (nat \<times> nat) list" where
  "scanPairs n = concat (map (\<lambda>i. map (\<lambda>j. (i, j)) [i + 1 ..< n]) [0 ..< n])"

definition collisionThreshold :: real where
  "collisionThreshold = 15"

definition collide :: "int \<Rightarrow> Vehicle \<Rightarrow> Vehicle" where
  "collide tick v = v\<lparr>collisionTimestamp := Some tick, stopped := True\<rparr>"

text \<open>
  The body of the inner loop. The state is the vehicle array, the set
  \<^verbatim>\<open>collidedThisTick\<close> of vehicle ids and the collisions logged so far (one
  \<^verbatim>\<open>addLog\<close> call each, kept as the pair of ids it names).
\<close>

definition collisionStep ::
  "int \<Rightarrow> nat \<times> nat \<Rightarrow> Vehicle list \<times> nat set \<times> (nat \<times> nat) list
     \<Rightarrow> Vehicle list \<times> nat set \<times> (nat \<times> nat) list" where
  "collisionStep tick ij s =
     (case ij of (i, j) \<Rightarrow> case s of (movedVehicles, collidedThisTick, logged) \<Rightarrow>
        let vehicleA = movedVehicles ! i;
            vehicleB = movedVehicles ! j
        in
          if vid vehicleA \<in> collidedThisTick \<or> vid vehicleB \<in> collidedThisTick then s
          else if hypot (vx vehicleA - vx vehicleB) (vy vehicleB - vy vehicleA) < collisionThreshold
          then (movedVehicles[i := collide tick vehicleA, j := collide tick vehicleB],
                insert (vid vehicleB) (insert (vid vehicleA) collidedThisTick),
                logged @ [(vid vehicleA, vid vehicleB)])
          else s)"

definition detectCollisions ::
  "int \<Rightarrow> Vehicle list \<Rightarrow> Vehicle list \<times> nat set \<times> (nat \<times> nat) list" where
  "detectCollisions tick movedVehicles =
     fold (collisionStep tick) (scanPairs (length movedVehicles)) (movedVehicles, {}, [])"

definition survives :: "Vehicle \<Rightarrow> bool" where
  "survives vehicle \<longleftrightarrow>
     vx vehicle > - 50 \<and> vx vehicle < real_of_int (GRID_SIZE * CELL_SIZE + 50) \<and>
     vy vehicle > - 50 \<and> vy vehicle < real_of_int (GRID_SIZE * CELL_SIZE + 50)"

text \<open>
  \<^verbatim>\<open>moveVehicles\<close>: both passes, then the vehicles that left the extended bounds are
  dropped. The result is the surviving vehicles, the number of vehicles that left (added to
  the throughput counter) and the collisions logged.
\<close>

definition moveVehicles ::
  "int \<Rightarrow> WeatherCondition \<Rightarrow> Intersection list \<Rightarrow> Vehicle list
     \<Rightarrow> Vehicle list \<times> nat \<times> (nat \<times> nat) list" where
  "moveVehicles tick currentWeather intersections prevVehicles =
     (let movedVehicles = map (moveVehicle tick currentWeather intersections prevVehicles) prevVehicles;
          scanned = detectCollisions tick movedVehicles;
          survivingVehicles = filter survives (fst scanned);
          exitedVehicleCount = length (fst scanned) - length survivingVehicles
      in (survivingVehicles, exitedVehicleCount, snd (snd scanned)))"

text \<open>
  The first pass of one vehicle over successive ticks, starting at tick \<open>t\<close>, one
  environment (weather, intersections, the other vehicles) per tick, when the second pass
  finds no collision for it.
\<close>

fun firstPasses ::
  "int \<Rightarrow> (WeatherCondition \<times> Intersection list \<times> Vehicle list) list \<Rightarrow> Vehicle \<Rightarrow> Vehicle" where
  "firstPasses t [] v = v"
| "firstPasses t (env # envs) v =
     firstPasses (t + 1) envs (moveVehicle t (fst env) (fst (snd env)) (snd (snd env)) v)"

section \<open>Spawning\<close>

text \<open>
  \<^verbatim>\<open>spawnVehicle\<close>. The four calls of \<^verbatim>\<open>Math.random()\<close> are the arguments \<open>r1\<close> to \<open>r4\<close>, in
  the order of the calls. The state is the vehicle list and \<^verbatim>\<open>vehicleIdCounter\<close>. The
  guard is \<^verbatim>\<open>vehicles.length > 50\<close>.
\<close>

definition spawnVehicle ::
  "real \<Rightarrow> real \<Rightarrow> real \<Rightarrow> real \<Rightarrow> Vehicle list \<times> nat \<Rightarrow> Vehicle list \<times> nat" where
  "spawnVehicle r1 r2 r3 r4 s =
     (case s of (vehicles, vehicleIdCounter) \<Rightarrow>
        if length vehicles > 50 then s
        else
          let edge = \<lfloor>r1 * 4\<rfloor>;
              position = real_of_int \<lfloor>r2 * real_of_int GRID_SIZE\<rfloor>;
              cell = real_of_int CELL_SIZE;
              half = real_of_int INTERSECTION_SIZE / 2;
              lane = real_of_int LANE_WIDTH / 2;
              far = real_of_int (GRID_SIZE * CELL_SIZE) + 20;
              xyd =
                (if edge = 0 then (position * cell + half + lane, - 20, S)
                 else if edge = 1 then (position * cell + half - lane, far, N)
                 else if edge = 2 then (- 20, position * cell + half - lane, E)
                 else if edge = 3 then (far, position * cell + half + lane, W)
                 else (0, 0, E));
              rand = r3;
              ts =
                (if rand < 7 / 10 then (CAR, 2 + r4 * 2)
                 else if rand < 9 / 10 then (BIKE, 3 + r4 * 2)
                 else (BUS, 15 / 10 + r4 * 1));
              newVehicle =
                \<lparr> vid = vehicleIdCounter, vtype = fst ts,
                  vx = fst xyd, vy = fst (snd xyd), direction = snd (snd xyd), speed = snd ts,
                  stopped = False, waitTime = 0, isEmergency = False,
                  destination = None, path = None, collisionTimestamp = None \<rparr>
          in (vehicles @ [newVehicle], vehicleIdCounter + 1))"

section \<open>Jam detection\<close>

text \<open>
  A segment id, \<^verbatim>\<open>`H-${i}-${j}`\<close> or \<^verbatim>\<open>`V-${i}-${j}`\<close>, is kept as its three parts. The
  bounds \<open>(xMin, xMax, yMin, yMax)\<close> of a segment are those of the two loop nests.
\<close>

datatype Segment = H nat nat | V nat nat

fun segmentBounds :: "Segment \<Rightarrow> real \<times> real \<times> real \<times> real" where
  "segmentBounds (H i j) =
     (let xMin = real_of_int (int j * CELL_SIZE + INTERSECTION_SIZE);
          xMax = real_of_int ((int j + 1) * CELL_SIZE);
          yMin = real_of_int (int i * CELL_SIZE) + real_of_int INTERSECTION_SIZE / 2;
          yMax = yMin + real_of_int (LANE_WIDTH * 2)
      in (xMin, xMax, yMin, yMax))"
| "segmentBounds (V i j) =
     (let xMin = real_of_int (int j * CELL_SIZE) + real_of_int INTERSECTION_SIZE / 2;
          xMax = xMin + real_of_int (LANE_WIDTH * 2);
          yMin = real_of_int (int i * CELL_SIZE + INTERSECTION_SIZE);
          yMax = real_of_int ((int i + 1) * CELL_SIZE)
      in (xMin, xMax, yMin, yMax))"

definition vehiclesInSegment :: "Segment \<Rightarrow> Vehicle list \<Rightarrow> Vehicle list" where
  "vehiclesInSegment seg vehicles =
     (case segmentBounds seg of (xMin, xMax, yMin, yMax) \<Rightarrow>
        filter (\<lambda>v. vx v > xMin \<and> vx v < xMax \<and> vy v > yMin \<and> vy v < yMax) vehicles)"

text \<open>The two nested tests made on the occupants of one segment.\<close>

definition jammed :: "Vehicle list \<Rightarrow> bool" where
  "jammed occupants =
     (if length occupants \<ge> JAM_VEHICLE_THRESHOLD then
        let stoppedCount = length (filter stopped occupants)
        in real stoppedCount / real (length occupants) \<ge> JAM_STOPPED_RATIO_THRESHOLD
      else False)"

definition checkSegment :: "Vehicle list \<Rightarrow> Segment \<Rightarrow> Segment list" where
  "checkSegment vehicles seg = (if jammed (vehiclesInSegment seg vehicles) then [seg] else [])"

text \<open>\<^verbatim>\<open>detectJams\<close>: the list \<^verbatim>\<open>newJammedSegments\<close>, horizontal segments first.\<close>

definition detectJams :: "Vehicle list \<Rightarrow> Segment list" where
  "detectJams vehicles =
     concat (map (\<lambda>i. concat (map (\<lambda>j. checkSegment vehicles (H i j)) [0 ..< nat (GRID_SIZE - 1)]))
                 [0 ..< nat GRID_SIZE])
     @ concat (map (\<lambda>i. concat (map (\<lambda>j. checkSegment vehicles (V i j)) [0 ..< nat GRID_SIZE]))
                   [0 ..< nat (GRID_SIZE - 1)])"

section \<open>Statistics\<close>

record VehicleCounts =
  cars :: nat
  bikes :: nat
  buses :: nat

text \<open>
  Division. In JavaScript a division by zero does not fail: it gives \<^verbatim>\<open>NaN\<close> or an
  infinity. The model makes that visible: the quotient is \<open>None\<close> when the divisor is zero,
  and the statistics that are quotients are options.
\<close>

definition jsDiv :: "real \<Rightarrow> real \<Rightarrow> real option" where
  "jsDiv a b = (if b = 0 then None else Some (a / b))"

text \<open>A density entry \<^verbatim>\<open>{name: `Int ${i+1}`, density}\<close> is kept as the pair of the number
  \<open>i + 1\<close> and the density; a history entry \<^verbatim>\<open>{time, wait}\<close> as a pair.\<close>

record SimulationStats =
  totalCars :: nat
  movingCars :: nat
  averageWaitTime :: "real option"
  emergencyActive :: bool
  historicalWaitTime :: "(int \<times> real option) list"
  trafficDensity :: "(nat \<times> real option) list"
  vehicleThroughput :: nat
  totalIdleTime :: int
  sensorAccuracy :: int
  vehicleCounts :: VehicleCounts

text \<open>\<^verbatim>\<open>Math.round\<close> rounds halves up; \<^verbatim>\<open>xs.slice(-50)\<close> keeps the last 50 elements.\<close>

definition jsRound :: "real \<Rightarrow> int" where
  "jsRound r = \<lfloor>r + 1 / 2\<rfloor>"

definition sliceLast :: "nat \<Rightarrow> 'a list \<Rightarrow> 'a list" where
  "sliceLast n xs = drop (length xs - n) xs"

definition noiseFactor :: "WeatherCondition \<Rightarrow> real" where
  "noiseFactor weather = (case weather of Rain \<Rightarrow> 1 / 10 | Fog \<Rightarrow> 25 / 100 | Clear \<Rightarrow> 0)"

definition accuracy :: "WeatherCondition \<Rightarrow> int" where
  "accuracy weather = (case weather of Rain \<Rightarrow> 90 | Fog \<Rightarrow> 75 | Clear \<Rightarrow> 100)"

text \<open>The density entry of intersection \<open>i\<close>; \<open>rnd\<close> is the value \<^verbatim>\<open>Math.random()\<close> returns
  for it when the noise factor is positive.\<close>

definition densityEntry ::
  "WeatherCondition \<Rightarrow> real \<Rightarrow> Vehicle list \<Rightarrow> nat \<Rightarrow> nat \<times> real option" where
  "densityEntry weather rnd vehicles i =
     (let intersectionX = real_of_int (int i mod GRID_SIZE * CELL_SIZE);
          intersectionY = real_of_int (int i div GRID_SIZE * CELL_SIZE);
          carsNear =
            int (length (filter (\<lambda>c. hypot (vx c - intersectionX) (vy c - intersectionY)
                                        < real_of_int CELL_SIZE) vehicles));
          carsNear =
            (if noiseFactor weather > 0 then
               let noise = (rnd - 1 / 2) * 2 * noiseFactor weather * real_of_int carsNear
               in max 0 (jsRound (real_of_int carsNear + noise))
             else carsNear)
      in (i + 1,
          map_option (\<lambda>q. q * 100) (jsDiv (real_of_int carsNear) (real (max 1 (length vehicles))))))"

text \<open>
  \<^verbatim>\<open>updateStats\<close>. It reads the vehicles, the weather and the throughput counter, advances
  \<^verbatim>\<open>simulationTick\<close>, and returns the new tick, the new statistics and the jammed
  segments (recomputed every fifth tick, otherwise left as they were).
\<close>

definition updateStats ::
  "WeatherCondition \<Rightarrow> (nat \<Rightarrow> real) \<Rightarrow> Vehicle list \<Rightarrow> nat
     \<Rightarrow> int \<times> SimulationStats \<times> Segment list \<Rightarrow> int \<times> SimulationStats \<times> Segment list" where
  "updateStats weather rnd vehicles throughput s =
     (case s of (simulationTick, prev, jammedSegments) \<Rightarrow>
        let tick = simulationTick + 1;
            total = length vehicles;
            moving = length (filter (\<lambda>c. \<not> stopped c) vehicles);
            totalWaitTime = foldl (\<lambda>acc car. acc + waitTime car) 0 vehicles;
            idle = foldl (\<lambda>acc car. acc + waitTime car) 0 (filter stopped vehicles);
            average =
              (if total > 0
               then Option.bind (jsDiv (real_of_int totalWaitTime) (real total))
                      (\<lambda>q. jsDiv q (real_of_int TICKS_PER_SECOND))
               else Some 0);
            counts =
              \<lparr> cars = length (filter (\<lambda>v. vtype v = CAR) vehicles),
                bikes = length (filter (\<lambda>v. vtype v = BIKE) vehicles),
                buses = length (filter (\<lambda>v. vtype v = BUS) vehicles) \<rparr>;
            history =
              (if tick mod TICKS_PER_SECOND = 0
               then sliceLast 50 (historicalWaitTime prev @ [(tick, average)])
               else historicalWaitTime prev);
            jams =
              (if tick mod (TICKS_PER_SECOND div 2) = 0 then detectJams vehicles
               else jammedSegments);
            density =
              map (\<lambda>i. densityEntry weather (rnd i) vehicles i) [0 ..< nat (GRID_SIZE * GRID_SIZE)]
        in (tick,
            prev\<lparr> historicalWaitTime := history, totalCars := total, movingCars := moving,
                  averageWaitTime := average, trafficDensity := density,
                  vehicleThroughput := throughput, totalIdleTime := idle,
                  vehicleCounts := counts, sensorAccuracy := accuracy weather \<rparr>,
            jams))"

section \<open>Path finding\<close>

text \<open>
  \<^verbatim>\<open>findPath\<close>, the A* search over the grid. A key \<^verbatim>\<open>`${gridX},${gridY}`\<close> is kept as the
  cell it spells (the search only builds keys from integers and splits them again). The
  object stored in \<^verbatim>\<open>nodes\<close> is a record; \<^verbatim>\<open>nodes\<close> is a map from cells; \<^verbatim>\<open>openSet\<close>, a
  JavaScript \<^verbatim>\<open>Set\<close>, is the list of its elements in insertion order, which is the order
  its iteration follows. \<open>None\<close> as a result stands for a search that does not return: it
  runs for ever, or reads a field of a node that is not in the map.
\<close>

record PathNode =
  gScore :: int
  hScore :: int
  fScore :: int
  parent :: "cell option"

definition manhattan :: "cell \<Rightarrow> cell \<Rightarrow> int" where
  "manhattan a b = \<bar>fst a - fst b\<bar> + \<bar>snd a - snd b\<bar>"

text \<open>The selection of \<^verbatim>\<open>currentKey\<close>: the first key of the open set, replaced by each later
  key whose \<^verbatim>\<open>f\<close> is strictly smaller.\<close>

fun lowestF :: "(cell \<rightharpoonup> PathNode) \<Rightarrow> cell list \<Rightarrow> cell \<Rightarrow> cell option" where
  "lowestF nodes [] currentKey = Some currentKey"
| "lowestF nodes (key # keys) currentKey =
     (case nodes key of
        None \<Rightarrow> None
      | Some n \<Rightarrow>
          (case nodes currentKey of
             None \<Rightarrow> None
           | Some c \<Rightarrow> lowestF nodes keys (if fScore n < fScore c then key else currentKey)))"

text \<open>The reconstruction loop \<^verbatim>\<open>while (tempKey)\<close>, which follows the parents and puts each
  cell in front of the path found so far.\<close>

partial_function (option) tracePath ::
  "(cell \<rightharpoonup> PathNode) \<Rightarrow> cell option \<Rightarrow> cell list \<Rightarrow> cell list option" where
  "tracePath nodes tempKey found =
     (case tempKey of
        None \<Rightarrow> Some found
      | Some key \<Rightarrow>
          (case nodes key of
             None \<Rightarrow> None
           | Some n \<Rightarrow> tracePath nodes (parent n) (key # found)))"

definition neighbors :: "cell \<Rightarrow> cell list" where
  "neighbors c =
     filter (\<lambda>n. fst n \<ge> 0 \<and> fst n < GRID_SIZE \<and> snd n \<ge> 0 \<and> snd n < GRID_SIZE)
       [(fst c + 1, snd c), (fst c - 1, snd c), (fst c, snd c + 1), (fst c, snd c - 1)]"

text \<open>The body of the loop over the neighbours.\<close>

definition visitNeighbor ::
  "cell \<Rightarrow> cell \<Rightarrow> PathNode \<Rightarrow> cell \<Rightarrow> (cell \<rightharpoonup> PathNode) \<times> cell list
     \<Rightarrow> (cell \<rightharpoonup> PathNode) \<times> cell list" where
  "visitNeighbor endKey currentKey currentNode neighbor s =
     (case s of (nodes, openSet) \<Rightarrow>
        let g = gScore currentNode + 1;
            h = manhattan neighbor endKey;
            f = g + h
        in
          if (case nodes neighbor of None \<Rightarrow> True | Some n \<Rightarrow> f < fScore n) then
            (nodes(neighbor \<mapsto> \<lparr>gScore = g, hScore = h, fScore = f, parent = Some currentKey\<rparr>),
             if neighbor \<in> set openSet then openSet else openSet @ [neighbor])
          else s)"

text \<open>The loop \<^verbatim>\<open>while (openSet.size > 0)\<close>.\<close>

partial_function (option) search ::
  "cell \<Rightarrow> (cell \<rightharpoonup> PathNode) \<Rightarrow> cell list \<Rightarrow> cell list option" where
  "search endKey nodes openSet =
     (case openSet of
        [] \<Rightarrow> Some []
      | first # rest \<Rightarrow>
          (case lowestF nodes openSet first of
             None \<Rightarrow> None
           | Some currentKey \<Rightarrow>
               if currentKey = endKey then
                 map_option (drop 1) (tracePath nodes (Some currentKey) [])
               else
                 (case nodes currentKey of
                    None \<Rightarrow> None
                  | Some currentNode \<Rightarrow>
                      (case fold (visitNeighbor endKey currentKey currentNode)
                              (neighbors currentKey) (nodes, removeAll currentKey openSet) of
                         (nodes', openSet') \<Rightarrow> search endKey nodes' openSet'))))"

definition findPath :: "cell \<Rightarrow> cell \<Rightarrow> cell list option" where
  "findPath startCell endCell =
     search endCell
       [startCell \<mapsto> \<lparr>gScore = 0, hScore = manhattan startCell endCell,
                       fScore = manhattan startCell endCell, parent = None\<rparr>]
       [startCell]"

section \<open>Predicates and concrete states of the statements\<close>

text \<open>An intersection under automatic control whose four lights are Yellow and whose
  timer has run out.\<close>

definition stuckYellow :: "Intersection \<Rightarrow> bool" where
  "stuckYellow i \<longleftrightarrow>
     \<not> manualOverride i \<and> emergencyOverrideFor i = None \<and>
     lightStates i = (YELLOW, YELLOW, YELLOW, YELLOW) \<and>
     (case lightTimers i of (t0, t1, t2, t3) \<Rightarrow> t0 \<le> 1)"

text \<open>The emergency override for heading \<open>dir\<close> is in force: the axis of \<open>dir\<close> is Green
  and the orthogonal axis is Red.\<close>

definition emergencyApplied :: "Direction \<Rightarrow> Intersection \<Rightarrow> bool" where
  "emergencyApplied dir i \<longleftrightarrow>
     (if dir = N \<or> dir = S then axisNS i GREEN \<and> axisEW i RED
      else axisEW i GREEN \<and> axisNS i RED)"

text \<open>Intersection 4 after \<^verbatim>\<open>setLightStateManually(4, 'EW')\<close>, with an emergency override
  for a vehicle heading North requested as well.\<close>

definition bothRequested :: Intersection where
  "bothRequested =
     \<lparr> iid = 4,
       lights = (\<lparr>state = RED, timer = 999\<rparr>, \<lparr>state = RED, timer = 999\<rparr>,
                 \<lparr>state = GREEN, timer = 999\<rparr>, \<lparr>state = GREEN, timer = 999\<rparr>),
       manualOverride = True,
       emergencyOverrideFor = Some N \<rparr>"

text \<open>The vehicle \<open>v'\<close> stands where \<open>v\<close> stood, moved by \<open>v\<close>'s speed times the weather
  multiplier along the heading of \<open>v'\<close>.\<close>

definition displaced :: "WeatherCondition \<Rightarrow> Vehicle \<Rightarrow> Vehicle \<Rightarrow> bool" where
  "displaced w v v' \<longleftrightarrow>
     (let d = speed v * getWeatherMultiplier w (vtype v) in
      case direction v' of
        N \<Rightarrow> vx v' = vx v \<and> vy v' = vy v - d
      | S \<Rightarrow> vx v' = vx v \<and> vy v' = vy v + d
      | E \<Rightarrow> vx v' = vx v + d \<and> vy v' = vy v
      | W \<Rightarrow> vx v' = vx v - d \<and> vy v' = vy v)"

text \<open>An emergency vehicle heading East in row 0, and a car 10 units ahead of it in the
  same lane.\<close>

definition ambulance :: Vehicle where
  "ambulance = \<lparr> vid = 1, vtype = CAR, vx = 300, vy = 75, direction = E, speed = 2, stopped = False,
     waitTime = 0, isEmergency = True, destination = None, path = None, collisionTimestamp = None \<rparr>"

definition carAhead :: Vehicle where
  "carAhead = \<lparr> vid = 2, vtype = CAR, vx = 310, vy = 75, direction = E, speed = 2, stopped = True,
     waitTime = 0, isEmergency = False, destination = None, path = None, collisionTimestamp = None \<rparr>"

text \<open>A car whose collision timestamp was set at tick 5.\<close>

definition bumped :: Vehicle where
  "bumped = \<lparr> vid = 3, vtype = CAR, vx = 300, vy = 75, direction = E, speed = 2, stopped = True,
     waitTime = 0, isEmergency = False, destination = None, path = None, collisionTimestamp = Some 5 \<rparr>"

text \<open>The pair of vehicles is closer than the collision threshold.\<close>

definition close :: "Vehicle \<Rightarrow> Vehicle \<Rightarrow> bool" where
  "close a b \<longleftrightarrow> hypot (vx a - vx b) (vy b - vy a) < 15"

text \<open>The vehicle ids named by the logged collisions, in order.\<close>

definition loggedIds :: "(nat \<times> nat) list \<Rightarrow> nat list" where
  "loggedIds logged = concat (map (\<lambda>p. [fst p, snd p]) logged)"

definition idPair :: "Vehicle list \<Rightarrow> nat \<times> nat \<Rightarrow> nat \<times> nat" where
  "idPair vs p = (vid (vs ! fst p), vid (vs ! snd p))"

text \<open>The index pairs the scan visits before the pair \<open>p\<close>, and the set
  \<^verbatim>\<open>collidedThisTick\<close> at the moment the scan reaches \<open>p\<close>.\<close>

definition scannedBefore :: "nat \<Rightarrow> nat \<times> nat \<Rightarrow> (nat \<times> nat) list" where
  "scannedBefore n p = takeWhile (\<lambda>q. q \<noteq> p) (scanPairs n)"

definition matchedBefore :: "int \<Rightarrow> Vehicle list \<Rightarrow> nat \<times> nat \<Rightarrow> nat set" where
  "matchedBefore tick vs p =
     fst (snd (fold (collisionStep tick) (scannedBefore (length vs) p) (vs, {}, [])))"

text \<open>The invariant of the scan over the moved vehicles \<open>vs0\<close>: the array holds the same
  vehicles, stamped and stopped exactly when their id is in \<^verbatim>\<open>collidedThisTick\<close>, which
  holds exactly the ids of the logged collisions, each id once.\<close>

definition scanInv ::
  "int \<Rightarrow> Vehicle list \<Rightarrow> Vehicle list \<times> nat set \<times> (nat \<times> nat) list \<Rightarrow> bool" where
  "scanInv tick vs0 s \<longleftrightarrow>
     (case s of (vs, c, l) \<Rightarrow>
        length vs = length vs0 \<and>
        (\<forall>k<length vs0. vs ! k = (if vid (vs0 ! k) \<in> c then collide tick (vs0 ! k) else vs0 ! k)) \<and>
        c = set (loggedIds l) \<and> distinct (loggedIds l))"

text \<open>Three cars in one lane at x = 100, 110 and 112.\<close>

definition trio :: "Vehicle list" where
  "trio = [carAhead\<lparr>vid := 0, vx := 100\<rparr>, carAhead\<lparr>vid := 1, vx := 110\<rparr>,
           carAhead\<lparr>vid := 2, vx := 112\<rparr>]"

text \<open>The segments the two loop nests of \<^verbatim>\<open>detectJams\<close> visit.\<close>

fun validSegment :: "Segment \<Rightarrow> bool" where
  "validSegment (H i j) \<longleftrightarrow> i < 3 \<and> j < 2"
| "validSegment (V i j) \<longleftrightarrow> i < 2 \<and> j < 3"

text \<open>Three cars on the horizontal segment between intersections 0 and 1, the first two
  stopped.\<close>

definition queue :: "Vehicle list" where
  "queue = [carAhead\<lparr>vid := 10, vx := 110, vy := 75\<rparr>, carAhead\<lparr>vid := 11, vx := 130, vy := 75\<rparr>,
            carAhead\<lparr>vid := 12, vx := 150, vy := 75, stopped := False\<rparr>]"

text \<open>\<open>n\<close> live cars with the ids 0 to \<open>n - 1\<close>.\<close>

definition fleet :: "nat \<Rightarrow> Vehicle list" where
  "fleet n = map (\<lambda>k. carAhead\<lparr>vid := k\<rparr>) [0 ..< n]"

text \<open>The cells of the grid, and the paths of the grid graph: a path from \<open>a\<close> is a
  sequence of cells of the grid, the start excluded, each one step (north, south, east or
  west) from the cell before it.\<close>

definition inGrid :: "cell \<Rightarrow> bool" where
  "inGrid c \<longleftrightarrow> 0 \<le> fst c \<and> fst c < GRID_SIZE \<and> 0 \<le> snd c \<and> snd c < GRID_SIZE"

definition gridCells :: "cell list" where
  "gridCells = [(0, 0), (1, 0), (2, 0), (0, 1), (1, 1), (2, 1), (0, 2), (1, 2), (2, 2)]"

fun validPath :: "cell \<Rightarrow> cell list \<Rightarrow> bool" where
  "validPath a [] = True"
| "validPath a (c # cs) = (manhattan a c = 1 \<and> inGrid c \<and> validPath c cs)"

definition goodPath :: "cell \<Rightarrow> cell \<Rightarrow> cell list \<Rightarrow> bool" where
  "goodPath a b p \<longleftrightarrow>
     a \<notin> set p \<and> int (length p) = manhattan a b \<and> validPath a p \<and> last (a # p) = b"

definition foundGood :: "cell \<Rightarrow> cell \<Rightarrow> bool" where
  "foundGood a b = (case findPath a b of None \<Rightarrow> False | Some p \<Rightarrow> goodPath a b p)"

section \<open>Properties of the traffic lights\<close>

lemmas light_consts =
  GRID_SIZE_def TICKS_PER_SECOND_def INITIAL_LIGHT_DURATION_def YELLOW_LIGHT_DURATION_def

lemmas light_defs =
  updateLight_def cycleLights_def emergencyLights_def lightStates_def lightTimers_def
  axisNS_def axisEW_def

lemma updateLights_funpow: "(updateLights ^^ n) xs = map (updateLight ^^ n) xs"
  by (induction n arbitrary: xs) (simp_all add: updateLights_def funpow_swap1)

lemma initialIntersections_0: "initialIntersections ! 0 = initialIntersection 0"
  by (simp add: initialIntersections_def GRID_SIZE_def upt_conv_Cons)

lemma nth0_funpow:
  "((updateLights ^^ n) initialIntersections) ! 0 = (updateLight ^^ n) (initialIntersection 0)"
proof -
  have len: "0 < length initialIntersections"
    by (simp add: initialIntersections_def GRID_SIZE_def)
  then show ?thesis
    by (simp add: updateLights_funpow initialIntersections_0 del: funpow.simps)
qed

text \<open>
  C1 (fails on the code). The claim: in every reachable state, at every intersection, the
  NS axis and the EW axis are never both Green and never both Yellow unless an emergency
  override is active. From the initial state, 25 applications of \<^verbatim>\<open>updateLights\<close> and
  nothing else bring intersection 0 to a state where both axes are Yellow, with no
  emergency override (and no manual override): NS turns Yellow at tick 20, and when its
  timer runs out at tick 25 the update, finding light 0 not Green, turns EW Yellow too.
\<close>

theorem C1_both_axes_yellow_at_tick_25:
  "axisNS (((updateLights ^^ 25) initialIntersections) ! 0) YELLOW \<and>
   axisEW (((updateLights ^^ 25) initialIntersections) ! 0) YELLOW \<and>
   emergencyOverrideFor (((updateLights ^^ 25) initialIntersections) ! 0) = None \<and>
   manualOverride (((updateLights ^^ 25) initialIntersections) ! 0) = False"
  unfolding nth0_funpow
  by (simp add: eval_nat_numeral light_defs light_consts initialIntersection_def Let_def)

lemma stuckYellow_step: "stuckYellow i \<Longrightarrow> stuckYellow (updateLight i)"
  by (auto simp: stuckYellow_def light_defs light_consts Let_def split: prod.splits)

lemma stuckYellow_funpow: "stuckYellow i \<Longrightarrow> stuckYellow ((updateLight ^^ k) i)"
  by (induction k) (simp_all add: stuckYellow_step)

lemma stuckYellow_25: "stuckYellow ((updateLight ^^ 25) (initialIntersection 0))"
  by (simp add: stuckYellow_def eval_nat_numeral light_defs light_consts
      initialIntersection_def Let_def)

text \<open>
  C2 (fails on the code). The claim: without overrides the per-tick update cycles
  NS_GREEN, NS_YELLOW, EW_GREEN, EW_YELLOW, NS_GREEN. Intersection 0 starts NS_GREEN and
  is NS_YELLOW from tick 20; from tick 25 on, for ever, all four of its lights are Yellow:
  EW_GREEN is never reached.
\<close>

theorem C2_never_leaves_yellow:
  "\<forall>k. lightStates (((updateLights ^^ (25 + k)) initialIntersections) ! 0)
         = (YELLOW, YELLOW, YELLOW, YELLOW)"
proof
  fix k
  have "((updateLights ^^ (25 + k)) initialIntersections) ! 0
          = (updateLight ^^ (25 + k)) (initialIntersection 0)"
    by (rule nth0_funpow)
  also have "\<dots> = (updateLight ^^ k) ((updateLight ^^ 25) (initialIntersection 0))"
    by (simp add: funpow_add add.commute del: funpow.simps)
  finally show "lightStates (((updateLights ^^ (25 + k)) initialIntersections) ! 0)
      = (YELLOW, YELLOW, YELLOW, YELLOW)"
    using stuckYellow_funpow[OF stuckYellow_25, of k] by (simp add: stuckYellow_def)
qed

text \<open>
  C3 (as stated, refuted). The claim: with a manual and an emergency override both
  requested, the update applies the emergency override. On intersection 4, manually set to
  EW green and with an emergency override for a northbound vehicle, the update returns the
  intersection as it is: the NS axis stays Red.
\<close>

theorem C3_manual_wins_counterexample:
  "manualOverride bothRequested \<and> emergencyOverrideFor bothRequested = Some N \<and>
   updateLight bothRequested = bothRequested \<and>
   \<not> emergencyApplied N (updateLight bothRequested)"
  by (simp add: bothRequested_def updateLight_def emergencyApplied_def axisNS_def axisEW_def
      lightStates_def)

text \<open>
  C3 (amended). The manual-override test comes first: an intersection under manual
  override is returned unchanged by the update, whatever emergency override is requested.
  The emergency override is applied (its axis Green, the orthogonal axis Red, the timers
  untouched) exactly when the intersection is not under manual override.
\<close>

theorem C3_override_precedence:
  "(manualOverride i \<longrightarrow> updateLight i = i) \<and>
   (\<not> manualOverride i \<and> emergencyOverrideFor i = Some dir \<longrightarrow>
      emergencyApplied dir (updateLight i) \<and> lightTimers (updateLight i) = lightTimers i)"
  by (cases dir) (auto simp: light_defs emergencyApplied_def split: prod.splits)

theorem C3_override_precedence_witness:
  "manualOverride bothRequested \<and> updateLight bothRequested = bothRequested \<and>
   \<not> manualOverride (bothRequested\<lparr>manualOverride := False\<rparr>) \<and>
   emergencyOverrideFor (bothRequested\<lparr>manualOverride := False\<rparr>) = Some N \<and>
   emergencyApplied N (updateLight (bothRequested\<lparr>manualOverride := False\<rparr>))"
  using C3_override_precedence[of bothRequested N]
        C3_override_precedence[of "bothRequested\<lparr>manualOverride := False\<rparr>" N]
  by (simp add: bothRequested_def)

section \<open>Properties of the vehicle kinematics\<close>

lemma hypot_less_iff: "0 < d \<Longrightarrow> hypot a b < d \<longleftrightarrow> a\<^sup>2 + b\<^sup>2 < d\<^sup>2"
  unfolding hypot_def
  by (metis abs_of_pos real_sqrt_abs real_sqrt_less_iff)

lemma routeEmergency_fields:
  "isEmergency (routeEmergency gx gy v) = isEmergency v"
  "collisionTimestamp (routeEmergency gx gy v) = collisionTimestamp v"
  "waitTime (routeEmergency gx gy v) = waitTime v"
  "vx (routeEmergency gx gy v) = vx v"
  "vy (routeEmergency gx gy v) = vy v"
  "speed (routeEmergency gx gy v) = speed v"
  "vtype (routeEmergency gx gy v) = vtype v"
  by (simp_all add: routeEmergency_def Let_def split: option.splits)

lemma clearOldCollision_fields:
  "isEmergency (clearOldCollision t v) = isEmergency v"
  "waitTime (clearOldCollision t v) = waitTime v"
  "vx (clearOldCollision t v) = vx v"
  "vy (clearOldCollision t v) = vy v"
  "speed (clearOldCollision t v) = speed v"
  "vtype (clearOldCollision t v) = vtype v"
  by (simp_all add: clearOldCollision_def split: option.splits)

lemma advance_fields:
  "isEmergency (advance w v) = isEmergency v"
  "collisionTimestamp (advance w v) = collisionTimestamp v"
  "waitTime (advance w v) = waitTime v"
  "stopped (advance w v) = stopped v"
  "direction (advance w v) = direction v"
  by (simp_all add: advance_def Let_def split: Direction.splits)

lemma moveVehicle_collisionTimestamp:
  "collisionTimestamp (moveVehicle tick w ints prev v)
     = collisionTimestamp (clearOldCollision tick v)"
  by (simp add: moveVehicle_def Let_def advance_fields routeEmergency_fields)

text \<open>
  C4 (as stated, refuted). The claim: an emergency vehicle is marked stopped when a vehicle
  ahead in its heading lies within the safety distance. The ambulance has a car 10 units
  ahead in its lane, within the safety distance of 20, and the stop computation finds it;
  the first pass still leaves the ambulance not stopped.
\<close>

theorem C4_emergency_not_stopped_counterexample:
  "isEmergency ambulance \<and> aheadOf ambulance carAhead \<and>
   computeStop initialIntersections [ambulance, carAhead] 1 0 ambulance \<and>
   \<not> stopped (moveVehicle 7 Clear initialIntersections [ambulance, carAhead] ambulance)"
  by (simp add: ambulance_def carAhead_def aheadOf_def hypot_less_iff computeStop_def
       moveVehicle_def Let_def advance_def routeEmergency_def clearOldCollision_def)

text \<open>
  C4 (amended). For every vehicle with \<open>isEmergency\<close> true, the first pass of the per-tick
  update ignores the whole stop computation, the Red/Yellow-light condition and the
  vehicle-ahead condition alike (\<^verbatim>\<open>stopped = stop && !isEmergency\<close>): the vehicle is marked
  not stopped, its wait time is unchanged, and it advances by its speed times the weather
  multiplier along its heading.
\<close>

theorem C4_emergency_never_stopped_by_first_pass:
  "isEmergency v \<Longrightarrow>
   \<not> stopped (moveVehicle tick w ints prev v) \<and>
   waitTime (moveVehicle tick w ints prev v) = waitTime v \<and>
   displaced w v (moveVehicle tick w ints prev v)"
  by (simp add: moveVehicle_def Let_def advance_def displaced_def routeEmergency_fields
      clearOldCollision_fields split: Direction.splits)

theorem C4_emergency_never_stopped_by_first_pass_witness:
  "isEmergency ambulance \<and>
   \<not> stopped (moveVehicle 7 Clear initialIntersections [ambulance, carAhead] ambulance) \<and>
   vx (moveVehicle 7 Clear initialIntersections [ambulance, carAhead] ambulance) = 302"
  using C4_emergency_never_stopped_by_first_pass
          [of ambulance 7 Clear initialIntersections "[ambulance, carAhead]"]
  by (simp add: ambulance_def displaced_def getWeatherMultiplier_def moveVehicle_def Let_def
      advance_def routeEmergency_def clearOldCollision_def)

lemma firstPasses_None:
  "collisionTimestamp v = None \<Longrightarrow> collisionTimestamp (firstPasses t envs v) = None"
  by (induction envs arbitrary: t v)
     (simp_all add: moveVehicle_collisionTimestamp clearOldCollision_def)

lemma firstPasses_Some:
  "collisionTimestamp v = Some T \<Longrightarrow> T \<noteq> 0 \<Longrightarrow>
   collisionTimestamp (firstPasses t envs v) =
     (if envs \<noteq> [] \<and> t + int (length envs) - 1 > T + 10 then None else Some T)"
proof (induction envs arbitrary: t v)
  case Nil
  then show ?case by simp
next
  case (Cons env envs)
  let ?v = "moveVehicle t (fst env) (fst (snd env)) (snd (snd env)) v"
  show ?case
  proof (cases "t > T + 10")
    case True
    then have "collisionTimestamp ?v = None"
      using Cons.prems
      by (simp add: moveVehicle_collisionTimestamp clearOldCollision_def
          COLLISION_FLASH_DURATION_TICKS_def TICKS_PER_SECOND_def)
    then show ?thesis using True by (simp add: firstPasses_None)
  next
    case False
    then have "collisionTimestamp ?v = Some T"
      using Cons.prems
      by (simp add: moveVehicle_collisionTimestamp clearOldCollision_def
          COLLISION_FLASH_DURATION_TICKS_def TICKS_PER_SECOND_def)
    from Cons.IH[OF this Cons.prems(2), of "t + 1"] False show ?thesis
      by (cases envs) auto
  qed
qed

text \<open>
  C5 (as stated, refuted). The claim: a collision flag set at tick T is absent from tick
  T + 10 onward. The flag of the car stamped at tick 5 is still present after the first
  pass of tick 15; the first pass of tick 16 removes it.
\<close>

theorem C5_flag_present_at_T_plus_10_counterexample:
  "collisionTimestamp bumped = Some 5 \<and>
   collisionTimestamp (moveVehicle (5 + 10) Clear initialIntersections [bumped] bumped) = Some 5 \<and>
   collisionTimestamp (moveVehicle (5 + 11) Clear initialIntersections [bumped] bumped) = None"
  by (simp add: moveVehicle_collisionTimestamp clearOldCollision_def bumped_def
          COLLISION_FLASH_DURATION_TICKS_def TICKS_PER_SECOND_def)

text \<open>
  C5 (amended). The flag is cleared by the first pass at which more than the flash
  duration has elapsed (\<^verbatim>\<open>tick - timestamp > 10\<close>): for a vehicle stamped at a tick
  T other than 0 that suffers no new collision, after the first passes of ticks
  T + 1, ..., T + k the flag is still present when k \<le> 10 and absent when k \<ge> 11; it is
  present through tick T + 10 and absent from tick T + 11 onward.
\<close>

theorem C5_flag_cleared_at_T_plus_11:
  "collisionTimestamp v = Some T \<Longrightarrow> T \<noteq> 0 \<Longrightarrow>
   collisionTimestamp (firstPasses (T + 1) envs v) = (if length envs \<le> 10 then Some T else None)"
  by (simp add: firstPasses_Some)

theorem C5_flag_cleared_at_T_plus_11_witness:
  "collisionTimestamp bumped = Some 5 \<and> (5::int) \<noteq> 0 \<and>
   collisionTimestamp
     (firstPasses (5 + 1) (replicate 10 (Clear, initialIntersections, [bumped])) bumped) = Some 5 \<and>
   collisionTimestamp
     (firstPasses (5 + 1) (replicate 11 (Clear, initialIntersections, [bumped])) bumped) = None"
  using C5_flag_cleared_at_T_plus_11[of bumped 5 "replicate 10 (Clear, initialIntersections, [bumped])"]
        C5_flag_cleared_at_T_plus_11[of bumped 5 "replicate 11 (Clear, initialIntersections, [bumped])"]
  by (simp add: bumped_def)

section \<open>Properties of the collision scan\<close>

lemma collide_fields [simp]:
  "vid (collide t v) = vid v" "vx (collide t v) = vx v" "vy (collide t v) = vy v"
  by (simp_all add: collide_def)

lemma loggedIds_snoc: "loggedIds (l @ [(a, b)]) = loggedIds l @ [a, b]"
  by (simp add: loggedIds_def)

lemma scanInv_step:
  assumes d: "distinct (map vid vs0)" and inv: "scanInv tick vs0 s" and ij: "i < j" "j < length vs0"
  shows "scanInv tick vs0 (collisionStep tick (i, j) s)"
proof -
  obtain vs c l where s: "s = (vs, c, l)" by (cases s)
  have len: "length vs = length vs0"
    and nth: "\<And>k. k < length vs0 \<Longrightarrow> vs ! k = (if vid (vs0 ! k) \<in> c then collide tick (vs0 ! k) else vs0 ! k)"
    and c: "c = set (loggedIds l)" and dl: "distinct (loggedIds l)"
    using inv by (simp_all add: scanInv_def s)
  have i: "i < length vs0" using ij by simp
  have idi: "vid (vs ! i) = vid (vs0 ! i)" and idj: "vid (vs ! j) = vid (vs0 ! j)"
    using nth[OF i] nth[OF ij(2)] by simp_all
  have inj: "\<And>k m. k < length vs0 \<Longrightarrow> m < length vs0 \<Longrightarrow> vid (vs0 ! k) = vid (vs0 ! m) \<Longrightarrow> k = m"
    using d by (metis length_map nth_eq_iff_index_eq nth_map)
  show ?thesis
  proof (cases "vid (vs ! i) \<in> c \<or> vid (vs ! j) \<in> c \<or> \<not> hypot (vx (vs ! i) - vx (vs ! j)) (vy (vs ! j) - vy (vs ! i)) < collisionThreshold")
    case True
    then have "collisionStep tick (i, j) s = s"
      by (auto simp: collisionStep_def s Let_def)
    then show ?thesis using inv by simp
  next
    case False
    then have ni: "vid (vs0 ! i) \<notin> c" and nj: "vid (vs0 ! j) \<notin> c"
      using idi idj by auto
    have step: "collisionStep tick (i, j) s =
       (vs[i := collide tick (vs ! i), j := collide tick (vs ! j)],
        insert (vid (vs0 ! j)) (insert (vid (vs0 ! i)) c), l @ [(vid (vs0 ! i), vid (vs0 ! j))])"
      using False by (simp add: collisionStep_def s Let_def idi idj)
    have vi: "vs ! i = vs0 ! i" and vj: "vs ! j = vs0 ! j"
      using nth[OF i] nth[OF ij(2)] ni nj by simp_all
    have neq: "vid (vs0 ! i) \<noteq> vid (vs0 ! j)"
      using inj[OF i ij(2)] ij(1) by auto
    have "\<And>k. k < length vs0 \<Longrightarrow>
        vs[i := collide tick (vs ! i), j := collide tick (vs ! j)] ! k =
        (if vid (vs0 ! k) \<in> insert (vid (vs0 ! j)) (insert (vid (vs0 ! i)) c)
         then collide tick (vs0 ! k) else vs0 ! k)"
    proof -
      fix k assume k: "k < length vs0"
      consider "k = i" | "k = j" | "k \<noteq> i" "k \<noteq> j" by blast
      then show "vs[i := collide tick (vs ! i), j := collide tick (vs ! j)] ! k =
        (if vid (vs0 ! k) \<in> insert (vid (vs0 ! j)) (insert (vid (vs0 ! i)) c)
         then collide tick (vs0 ! k) else vs0 ! k)"
      proof cases
        case 1
        then show ?thesis using ij len vi by simp
      next
        case 2
        then show ?thesis using ij len vj by simp
      next
        case 3
        then have "vid (vs0 ! k) \<noteq> vid (vs0 ! i)" "vid (vs0 ! k) \<noteq> vid (vs0 ! j)"
          using inj[OF k i] inj[OF k ij(2)] by auto
        then show ?thesis using 3 nth[OF k] by simp
      qed
    qed
    moreover have "distinct (loggedIds (l @ [(vid (vs0 ! i), vid (vs0 ! j))]))"
      using dl ni nj neq c by (simp add: loggedIds_snoc)
    moreover have "insert (vid (vs0 ! j)) (insert (vid (vs0 ! i)) c)
        = set (loggedIds (l @ [(vid (vs0 ! i), vid (vs0 ! j))]))"
      using c by (auto simp: loggedIds_snoc)
    ultimately show ?thesis
      unfolding step scanInv_def using len by simp
  qed
qed

lemma scanInv_fold:
  assumes d: "distinct (map vid vs0)"
  shows "scanInv tick vs0 s \<Longrightarrow> \<forall>p\<in>set ps. fst p < snd p \<and> snd p < length vs0 \<Longrightarrow>
         scanInv tick vs0 (fold (collisionStep tick) ps s)"
proof (induction ps arbitrary: s)
  case Nil
  then show ?case by simp
next
  case (Cons p ps)
  obtain i j where p: "p = (i, j)" by (cases p)
  have "scanInv tick vs0 (collisionStep tick p s)"
    using scanInv_step[OF d Cons.prems(1), of i j] Cons.prems(2) by (simp add: p)
  then show ?case using Cons.IH Cons.prems(2) by simp
qed

lemma scanPairs_set: "set (scanPairs n) = {(i, j). i < j \<and> j < n}"
proof -
  have "(i, j) \<in> set (scanPairs n) \<longleftrightarrow> i < j \<and> j < n" for i j
  proof
    assume "(i, j) \<in> set (scanPairs n)"
    then show "i < j \<and> j < n" by (auto simp: scanPairs_def)
  next
    assume "i < j \<and> j < n"
    then have "i \<in> {0..<n}" "(i, j) \<in> Pair i ` {Suc i..<n}" by auto
    then show "(i, j) \<in> set (scanPairs n)" by (auto simp: scanPairs_def)
  qed
  then show ?thesis by auto
qed

lemma distinct_scanPairs: "distinct (scanPairs n)"
  unfolding scanPairs_def
proof (rule distinct_concat)
  have "x = y" if "x < n" "y < n" "map (Pair x) [x + 1..<n] = map (Pair y) [y + 1..<n]" for x y
  proof -
    have "length (map (Pair x) [x + 1..<n]) = length (map (Pair y) [y + 1..<n])"
      using that(3) by simp
    then show ?thesis using that(1,2) by simp
  qed
  then show "distinct (map (\<lambda>i. map (Pair i) [i + 1..<n]) [0..<n])"
    by (auto simp: distinct_map inj_on_def)
next
  fix ys assume "ys \<in> set (map (\<lambda>i. map (Pair i) [i + 1..<n]) [0..<n])"
  then show "distinct ys" by (auto simp: distinct_map inj_on_def)
next
  fix ys zs
  assume "ys \<in> set (map (\<lambda>i. map (Pair i) [i + 1..<n]) [0..<n])"
         "zs \<in> set (map (\<lambda>i. map (Pair i) [i + 1..<n]) [0..<n])" "ys \<noteq> zs"
  then show "set ys \<inter> set zs = {}" by auto
qed

lemma scanInv_init: "scanInv tick vs (vs, {}, [])"
  by (simp add: scanInv_def loggedIds_def)

lemma collisionStep_log:
  assumes "scanInv tick vs0 s" "i < j" "j < length vs0"
  shows "snd (snd (collisionStep tick (i, j) s)) =
     (if vid (vs0 ! i) \<notin> fst (snd s) \<and> vid (vs0 ! j) \<notin> fst (snd s) \<and> close (vs0 ! i) (vs0 ! j)
      then snd (snd s) @ [idPair vs0 (i, j)] else snd (snd s))"
proof -
  obtain vs c l where s: "s = (vs, c, l)" by (cases s)
  have i: "i < length vs0" using assms by simp
  have "vid (vs ! i) = vid (vs0 ! i)" "vid (vs ! j) = vid (vs0 ! j)"
       "vx (vs ! i) = vx (vs0 ! i)" "vx (vs ! j) = vx (vs0 ! j)"
       "vy (vs ! i) = vy (vs0 ! i)" "vy (vs ! j) = vy (vs0 ! j)"
    using assms i by (simp_all add: scanInv_def s)
  then show ?thesis
    by (simp add: collisionStep_def s Let_def close_def idPair_def collisionThreshold_def)
qed

lemma fold_log_bounds:
  assumes d: "distinct (map vid vs0)"
  shows "scanInv tick vs0 s \<Longrightarrow> \<forall>p\<in>set ps. fst p < snd p \<and> snd p < length vs0 \<Longrightarrow>
     set (snd (snd s)) \<subseteq> set (snd (snd (fold (collisionStep tick) ps s))) \<and>
     set (snd (snd (fold (collisionStep tick) ps s))) \<subseteq> set (snd (snd s)) \<union> idPair vs0 ` set ps"
proof (induction ps arbitrary: s)
  case Nil
  then show ?case by simp
next
  case (Cons p ps)
  obtain i j where p: "p = (i, j)" by (cases p)
  have ij: "i < j" "j < length vs0" using Cons.prems(2) by (simp_all add: p)
  have inv': "scanInv tick vs0 (collisionStep tick p s)"
    using scanInv_step[OF d Cons.prems(1) ij] by (simp add: p)
  have rest: "\<forall>p\<in>set ps. fst p < snd p \<and> snd p < length vs0" using Cons.prems(2) by simp
  note IH = Cons.IH[OF inv' rest]
  have l: "set (snd (snd s)) \<subseteq> set (snd (snd (collisionStep tick p s)))"
          "set (snd (snd (collisionStep tick p s))) \<subseteq> set (snd (snd s)) \<union> {idPair vs0 p}"
    unfolding p collisionStep_log[OF Cons.prems(1) ij] by auto
  show ?case using IH l by auto
qed

lemma idPair_inj:
  assumes d: "distinct (map vid vs0)"
    and "fst p < length vs0" "snd p < length vs0" "fst q < length vs0" "snd q < length vs0"
    and "idPair vs0 p = idPair vs0 q"
  shows "p = q"
proof -
  have inj: "\<And>k m. k < length vs0 \<Longrightarrow> m < length vs0 \<Longrightarrow> vid (vs0 ! k) = vid (vs0 ! m) \<Longrightarrow> k = m"
    using d by (metis length_map nth_eq_iff_index_eq nth_map)
  from assms have "fst p = fst q" "snd p = snd q"
    by (auto simp: idPair_def intro: inj)
  then show ?thesis by (simp add: prod_eq_iff)
qed

lemma logged_iff:
  assumes d: "distinct (map vid vs)" and ij: "i < j" "j < length vs"
  shows "idPair vs (i, j) \<in> set (snd (snd (detectCollisions tick vs))) \<longleftrightarrow>
     vid (vs ! i) \<notin> fst (snd (fold (collisionStep tick) (scannedBefore (length vs) (i, j)) (vs, {}, []))) \<and>
     vid (vs ! j) \<notin> fst (snd (fold (collisionStep tick) (scannedBefore (length vs) (i, j)) (vs, {}, []))) \<and>
     close (vs ! i) (vs ! j)"
proof -
  let ?n = "length vs"
  let ?ps = "scannedBefore ?n (i, j)"
  let ?qs = "tl (dropWhile (\<lambda>q. q \<noteq> (i, j)) (scanPairs ?n))"
  have mem: "(i, j) \<in> set (scanPairs ?n)" using ij by (simp add: scanPairs_set)
  then have dw: "dropWhile (\<lambda>q. q \<noteq> (i, j)) (scanPairs ?n) = (i, j) # ?qs"
    by (metis (mono_tags, lifting) dropWhile_eq_Nil_conv hd_dropWhile list.collapse)
  have split: "scanPairs ?n = ?ps @ (i, j) # ?qs"
    unfolding scannedBefore_def using dw by (metis takeWhile_dropWhile_id)
  have nps: "(i, j) \<notin> set ?ps"
    unfolding scannedBefore_def by (metis (mono_tags, lifting) set_takeWhileD)
  have nqs: "(i, j) \<notin> set ?qs"
    using distinct_scanPairs[of ?n] split by (metis distinct.simps(2) distinct_append)
  have valid: "\<forall>p\<in>set (scanPairs ?n). fst p < snd p \<and> snd p < ?n"
    by (auto simp: scanPairs_set)
  have vps: "\<forall>p\<in>set ?ps. fst p < snd p \<and> snd p < ?n"
    and vqs: "\<forall>p\<in>set ?qs. fst p < snd p \<and> snd p < ?n"
    using valid split by (metis Un_iff set_append, metis Un_iff list.set_intros(2) set_append)
  let ?s1 = "fold (collisionStep tick) ?ps (vs, {}, [])"
  let ?s2 = "collisionStep tick (i, j) ?s1"
  have inv1: "scanInv tick vs ?s1"
    by (rule scanInv_fold[OF d scanInv_init vps])
  have inv2: "scanInv tick vs ?s2"
    by (rule scanInv_step[OF d inv1 ij])
  have final: "detectCollisions tick vs = fold (collisionStep tick) ?qs ?s2"
    unfolding detectCollisions_def by (subst split) simp
  have b1: "set (snd (snd ?s1)) \<subseteq> idPair vs ` set ?ps"
    using fold_log_bounds[OF d scanInv_init vps, of tick] by simp
  have b2: "set (snd (snd ?s2)) \<subseteq> set (snd (snd (detectCollisions tick vs)))"
           "set (snd (snd (detectCollisions tick vs))) \<subseteq> set (snd (snd ?s2)) \<union> idPair vs ` set ?qs"
    unfolding final using fold_log_bounds[OF d inv2 vqs] by simp_all
  have notin: "idPair vs (i, j) \<notin> idPair vs ` set qs" if "(i, j) \<notin> set qs" "\<forall>p\<in>set qs. fst p < snd p \<and> snd p < ?n" for qs
  proof
    assume "idPair vs (i, j) \<in> idPair vs ` set qs"
    then obtain q where q: "q \<in> set qs" "idPair vs (i, j) = idPair vs q" by auto
    then have "fst q < ?n" "snd q < ?n" using that(2) by auto
    then have "(i, j) = q" using idPair_inj[OF d _ _ _ _ q(2)] ij by simp
    then show False using q(1) that(1) by simp
  qed
  show ?thesis
  proof (cases "vid (vs ! i) \<notin> fst (snd ?s1) \<and> vid (vs ! j) \<notin> fst (snd ?s1) \<and> close (vs ! i) (vs ! j)")
    case True
    then have "idPair vs (i, j) \<in> set (snd (snd ?s2))"
      by (simp add: collisionStep_log[OF inv1 ij])
    then show ?thesis using True b2(1) by auto
  next
    case False
    then have "snd (snd ?s2) = snd (snd ?s1)"
      by (simp add: collisionStep_log[OF inv1 ij])
    then have "idPair vs (i, j) \<notin> set (snd (snd ?s2))"
      using b1 notin[OF nps vps] by auto
    then have "idPair vs (i, j) \<notin> set (snd (snd (detectCollisions tick vs)))"
      using b2(2) notin[OF nqs vqs] by auto
    then show ?thesis using False by simp
  qed
qed

text \<open>
  C6. In the collision scan of a tick, over moved vehicles with distinct ids: the scan
  keeps the array's length and changes a vehicle only by stamping it with the current tick
  and stopping it, which it does exactly to the vehicles in \<^verbatim>\<open>collidedThisTick\<close>; these
  are exactly the vehicles named by the logged collisions, and no vehicle is named twice
  (each vehicle is matched to at most one collision per tick). A pair \<open>i < j\<close> is logged as
  a collision if and only if it is closer than the threshold of 15 and neither vehicle was
  already matched when the scan reached the pair (the first pairing found is accepted, a
  matched vehicle is skipped from then on); and for such a pair both vehicles end with the
  current tick as collision timestamp and \<open>stopped\<close> true.
\<close>

theorem C6_collision_scan:
  assumes "distinct (map vid vs)" and "detectCollisions tick vs = (vs', collided, logged)"
  shows "length vs' = length vs \<and>
    (\<forall>k<length vs. vs' ! k =
        (if vid (vs ! k) \<in> collided
         then (vs ! k)\<lparr>collisionTimestamp := Some tick, stopped := True\<rparr> else vs ! k)) \<and>
    collided = set (loggedIds logged) \<and> distinct (loggedIds logged) \<and>
    (\<forall>i j. i < j \<and> j < length vs \<longrightarrow>
       ((vid (vs ! i), vid (vs ! j)) \<in> set logged \<longleftrightarrow>
          vid (vs ! i) \<notin> matchedBefore tick vs (i, j) \<and>
          vid (vs ! j) \<notin> matchedBefore tick vs (i, j) \<and> close (vs ! i) (vs ! j))) \<and>
    (\<forall>i j. i < j \<and> j < length vs \<and> close (vs ! i) (vs ! j) \<and>
           vid (vs ! i) \<notin> matchedBefore tick vs (i, j) \<and>
           vid (vs ! j) \<notin> matchedBefore tick vs (i, j) \<longrightarrow>
       collisionTimestamp (vs' ! i) = Some tick \<and> stopped (vs' ! i) \<and>
       collisionTimestamp (vs' ! j) = Some tick \<and> stopped (vs' ! j))"
proof -
  have valid: "\<forall>p\<in>set (scanPairs (length vs)). fst p < snd p \<and> snd p < length vs"
    by (auto simp: scanPairs_set)
  have inv: "scanInv tick vs (vs', collided, logged)"
    using scanInv_fold[OF assms(1) scanInv_init valid, of tick] assms(2)
    by (simp add: detectCollisions_def)
  then have len: "length vs' = length vs"
    and nth: "\<forall>k<length vs. vs' ! k =
        (if vid (vs ! k) \<in> collided
         then (vs ! k)\<lparr>collisionTimestamp := Some tick, stopped := True\<rparr> else vs ! k)"
    and c: "collided = set (loggedIds logged)" and dl: "distinct (loggedIds logged)"
    by (simp_all add: scanInv_def collide_def)
  have iff: "\<forall>i j. i < j \<and> j < length vs \<longrightarrow>
       ((vid (vs ! i), vid (vs ! j)) \<in> set logged \<longleftrightarrow>
          vid (vs ! i) \<notin> matchedBefore tick vs (i, j) \<and>
          vid (vs ! j) \<notin> matchedBefore tick vs (i, j) \<and> close (vs ! i) (vs ! j))"
    using logged_iff[OF assms(1), of _ _ tick] assms(2)
    by (simp add: matchedBefore_def idPair_def)
  have "collisionTimestamp (vs' ! i) = Some tick \<and> stopped (vs' ! i) \<and>
        collisionTimestamp (vs' ! j) = Some tick \<and> stopped (vs' ! j)"
    if "i < j" "j < length vs" "close (vs ! i) (vs ! j)"
       "vid (vs ! i) \<notin> matchedBefore tick vs (i, j)" "vid (vs ! j) \<notin> matchedBefore tick vs (i, j)"
    for i j
  proof -
    have "(vid (vs ! i), vid (vs ! j)) \<in> set logged" using iff that by blast
    then have "vid (vs ! i) \<in> collided" "vid (vs ! j) \<in> collided"
      unfolding c loggedIds_def by force+
    moreover have "i < length vs" using that by simp
    ultimately show ?thesis using nth that(2) by simp
  qed
  then show ?thesis using len nth c dl iff by blast
qed

theorem C6_collision_scan_witness:
  "distinct (map vid trio) \<and>
   detectCollisions 7 trio = ([collide 7 (trio ! 0), collide 7 (trio ! 1), trio ! 2], {0, 1}, [(0, 1)]) \<and>
   close (trio ! 1) (trio ! 2) \<and>
   (vid (trio ! 1) \<in> matchedBefore 7 trio (1, 2) \<or> vid (trio ! 2) \<in> matchedBefore 7 trio (1, 2))"
proof -
  have d: "distinct (map vid trio)" by (simp add: trio_def)
  have e: "detectCollisions 7 trio = ([collide 7 (trio ! 0), collide 7 (trio ! 1), trio ! 2], {0, 1}, [(0, 1)])"
    by (simp add: detectCollisions_def scanPairs_def collisionStep_def hypot_less_iff
        collisionThreshold_def trio_def carAhead_def Let_def upt_conv_Cons insert_commute)
  have c: "close (trio ! 1) (trio ! 2)"
    by (simp add: close_def hypot_less_iff trio_def carAhead_def)
  have i: "vid (trio ! 1) = 1" "vid (trio ! 2) = 2" "length trio = 3" by (simp_all add: trio_def)
  from C6_collision_scan[OF d e] have "(vid (trio ! 1), vid (trio ! 2)) \<in> set [(0, 1)] \<longleftrightarrow>
          vid (trio ! 1) \<notin> matchedBefore 7 trio (1, 2) \<and>
          vid (trio ! 2) \<notin> matchedBefore 7 trio (1, 2) \<and> close (trio ! 1) (trio ! 2)"
    using i(3) by auto
  then show ?thesis using d e c i by auto
qed

section \<open>Properties of jam detection, spawning and statistics\<close>

lemma detectJams_set:
  "set (detectJams vs) = {seg. validSegment seg \<and> jammed (vehiclesInSegment seg vs)}"
proof -
  have "seg \<in> set (detectJams vs) \<longleftrightarrow> validSegment seg \<and> jammed (vehiclesInSegment seg vs)"
    for seg
    by (cases seg) (auto simp: detectJams_def checkSegment_def GRID_SIZE_def)
  then show ?thesis by blast
qed

text \<open>
  C8. At a jam check a segment (one of the segments the check visits) is reported jammed if
  and only if it has at least 3 occupants and the fraction of its occupants that are
  stopped is at least 0.66. In particular a segment with 3 occupants of which 2 are stopped
  is reported, and a segment with at most 2 occupants is never reported. (The ratio is
  compared over the reals; for the occupant counts the population allows, the double
  quotient compares with the double 0.66 the same way.)
\<close>

theorem C8_jammed_iff_thresholds:
  "(seg \<in> set (detectJams vs) \<longleftrightarrow>
      validSegment seg \<and> 3 \<le> length (vehiclesInSegment seg vs) \<and>
      66 / 100 \<le> real (length (filter stopped (vehiclesInSegment seg vs)))
                    / real (length (vehiclesInSegment seg vs))) \<and>
   (validSegment seg \<and> length (vehiclesInSegment seg vs) = 3 \<and>
      length (filter stopped (vehiclesInSegment seg vs)) = 2 \<longrightarrow> seg \<in> set (detectJams vs)) \<and>
   (length (vehiclesInSegment seg vs) \<le> 2 \<longrightarrow> seg \<notin> set (detectJams vs))"
  by (simp add: detectJams_set jammed_def JAM_VEHICLE_THRESHOLD_def
      JAM_STOPPED_RATIO_THRESHOLD_def Let_def)

theorem C8_jammed_iff_thresholds_witness:
  "validSegment (H 0 0) \<and> length (vehiclesInSegment (H 0 0) queue) = 3 \<and>
   length (filter stopped (vehiclesInSegment (H 0 0) queue)) = 2 \<and>
   H 0 0 \<in> set (detectJams queue) \<and>
   length (vehiclesInSegment (H 0 0) (tl queue)) \<le> 2 \<and> H 0 0 \<notin> set (detectJams (tl queue))"
  using C8_jammed_iff_thresholds[of "H 0 0" queue] C8_jammed_iff_thresholds[of "H 0 0" "tl queue"]
  by (simp add: vehiclesInSegment_def queue_def carAhead_def CELL_SIZE_def LANE_WIDTH_def
      INTERSECTION_SIZE_def)

text \<open>
  C9 (as stated, refuted). The claim: with a live vehicle count of at least 50 the spawn
  adds no vehicle, so the count never exceeds 50. With exactly 50 live vehicles the spawn
  adds one: the count becomes 51.
\<close>

theorem C9_spawn_at_50_counterexample:
  "length (fleet 50) \<ge> 50 \<and> length (fst (spawnVehicle 0 0 0 0 (fleet 50, 50))) = 51"
  by (simp add: fleet_def spawnVehicle_def Let_def)

text \<open>
  C9 (amended). The guard is \<^verbatim>\<open>vehicles.length > 50\<close>: in every state with more than 50
  live vehicles the spawn adds no vehicle and leaves the id counter alone; with 50 or fewer
  it adds exactly one vehicle and advances the counter. So the count after a spawn attempt
  on at most 51 vehicles is at most 51.
\<close>

theorem C9_spawn_guard:
  "(length vs > 50 \<longrightarrow> spawnVehicle r1 r2 r3 r4 (vs, c) = (vs, c)) \<and>
   (length vs \<le> 50 \<longrightarrow>
      length (fst (spawnVehicle r1 r2 r3 r4 (vs, c))) = length vs + 1 \<and>
      snd (spawnVehicle r1 r2 r3 r4 (vs, c)) = c + 1) \<and>
   (length vs \<le> 51 \<longrightarrow> length (fst (spawnVehicle r1 r2 r3 r4 (vs, c))) \<le> 51)"
  by (simp add: spawnVehicle_def Let_def)

theorem C9_spawn_guard_witness:
  "length (fleet 51) > 50 \<and> spawnVehicle 0 0 0 0 (fleet 51, 51) = (fleet 51, 51) \<and>
   length (fleet 50) \<le> 50 \<and> length (fst (spawnVehicle 0 0 0 0 (fleet 50, 50))) = 51"
  using C9_spawn_guard[of "fleet 51" 0 0 0 0 51] C9_spawn_guard[of "fleet 50" 0 0 0 0 50]
  by (simp add: fleet_def)

text \<open>
  C10. With no live vehicle the statistics recomputation divides by nothing that is zero:
  whatever the weather, the random noise, the throughput and the previous state, the
  average wait time is the number 0 and each of the nine density entries is the number 0
  (\<open>Some 0\<close>: a proper quotient, not the outcome of a division by zero).
\<close>

theorem C10_stats_of_no_vehicles:
  "averageWaitTime (fst (snd (updateStats weather rnd [] throughput s))) = Some 0 \<and>
   map snd (trafficDensity (fst (snd (updateStats weather rnd [] throughput s))))
     = replicate 9 (Some 0)"
  by (cases s)
     (simp add: updateStats_def densityEntry_def jsDiv_def Let_def GRID_SIZE_def jsRound_def
        eval_nat_numeral upt_conv_Cons split: prod.splits)

section \<open>Properties of the path finder\<close>

lemmas findPath_eval =
  findPath_def search.simps tracePath.simps visitNeighbor_def neighbors_def manhattan_def
  GRID_SIZE_def Let_def

text \<open>The search, run on each of the 81 pairs of cells of the grid.\<close>

lemma findPath_all_pairs: "list_all (\<lambda>a. list_all (foundGood a) gridCells) gridCells"
  by (simp add: gridCells_def foundGood_def goodPath_def inGrid_def findPath_eval)

lemma inGrid_cells: "inGrid c \<Longrightarrow> c \<in> set gridCells"
proof -
  assume g: "inGrid c"
  obtain x y where c: "c = (x, y)" by (cases c)
  have "x = 0 \<or> x = 1 \<or> x = 2" "y = 0 \<or> y = 1 \<or> y = 2"
    using g by (auto simp: inGrid_def c GRID_SIZE_def)
  then show ?thesis by (auto simp: c gridCells_def)
qed

lemma manhattan_triangle: "manhattan a b \<le> manhattan a c + manhattan c b"
  by (simp add: manhattan_def)

lemma validPath_length: "validPath a q \<Longrightarrow> manhattan a (last (a # q)) \<le> int (length q)"
proof (induction q arbitrary: a)
  case Nil
  then show ?case by (simp add: manhattan_def)
next
  case (Cons c cs)
  then have "manhattan a c = 1" "manhattan c (last (c # cs)) \<le> int (length cs)" by simp_all
  then show ?case using manhattan_triangle[of a "last (c # cs)" c] by simp
qed

text \<open>
  C7. For every cell \<open>c\<close> (of the grid or not) the path finder applied to \<open>(c, c)\<close> returns
  the empty sequence. For every pair of cells \<open>a\<close>, \<open>b\<close> of the 3 by 3 grid it returns a
  sequence that excludes the start cell, whose length is the Manhattan distance between
  \<open>a\<close> and \<open>b\<close>, and which is a path of the grid graph from \<open>a\<close> to \<open>b\<close>; no path of the
  grid graph from \<open>a\<close> to \<open>b\<close> is shorter, so it is cost-optimal.
\<close>

theorem C7_findPath_manhattan:
  "findPath c c = Some [] \<and>
   (inGrid a \<and> inGrid b \<longrightarrow>
      (\<exists>p. findPath a b = Some p \<and> a \<notin> set p \<and> int (length p) = manhattan a b \<and>
           validPath a p \<and> last (a # p) = b \<and>
           (\<forall>q. validPath a q \<and> last (a # q) = b \<longrightarrow> length p \<le> length q)))"
proof (intro conjI impI)
  show "findPath c c = Some []"
    by (simp add: findPath_def search.simps tracePath.simps)
next
  assume "inGrid a \<and> inGrid b"
  then have "a \<in> set gridCells" "b \<in> set gridCells" by (simp_all add: inGrid_cells)
  then have "foundGood a b" using findPath_all_pairs by (simp add: list_all_iff)
  then obtain p where p: "findPath a b = Some p" "goodPath a b p"
    by (auto simp: foundGood_def split: option.splits)
  have "length p \<le> length q" if "validPath a q \<and> last (a # q) = b" for q
    using validPath_length[of a q] that p(2) by (simp add: goodPath_def)
  then show "\<exists>p. findPath a b = Some p \<and> a \<notin> set p \<and> int (length p) = manhattan a b \<and>
           validPath a p \<and> last (a # p) = b \<and>
           (\<forall>q. validPath a q \<and> last (a # q) = b \<longrightarrow> length p \<le> length q)"
    using p by (auto simp: goodPath_def)
qed

theorem C7_findPath_manhattan_witness:
  "inGrid (0, 0) \<and> inGrid (2, 2) \<and>
   (\<exists>p. findPath (0, 0) (2, 2) = Some p \<and> (0, 0) \<notin> set p \<and> length p = 4 \<and>
        last ((0, 0) # p) = (2, 2))"
proof -
  have g: "inGrid (0, 0) \<and> inGrid (2, 2)"
    by (simp add: inGrid_def GRID_SIZE_def)
  with C7_findPath_manhattan[of "(0, 0)" "(0, 0)" "(2, 2)"]
  obtain p where "findPath (0, 0) (2, 2) = Some p" "(0, 0) \<notin> set p"
      "int (length p) = manhattan (0, 0) (2, 2)" "last ((0, 0) # p) = (2, 2)"
    by blast
  then have "findPath (0, 0) (2, 2) = Some p \<and> (0, 0) \<notin> set p \<and> length p = 4 \<and>
        last ((0, 0) # p) = (2, 2)"
    by (simp add: manhattan_def)
  then show ?thesis using g by blast
qed

end
